theory Spec2Isabelle
  imports Complex_Main "HOL-Library.Word" "HOL-Library.Multiset"
begin

unbundle bit_operations_syntax

section \<open>Float and byte packing (internal/store/sqlite/encoding.go)\<close>

text \<open>
  A float32 is represented by its IEEE-754 bit pattern, a 32-bit word: the packing
  functions only move bits, they never compute with the value. A byte slice is a list
  of 8-bit words; Go's nil slice and the empty slice are both the empty list.

  \<^verbatim>\<open>float32ToBytes\<close> and \<^verbatim>\<open>bytesToFloat32\<close> reinterpret memory through
  \<^verbatim>\<open>unsafe.Slice\<close>, so the bytes appear in the byte order of the host; the host
  order is a parameter. In Go the result shares its memory with the argument; the model
  gives the values. The \<^verbatim>\<open>Alloc\<close> variants shift and mask explicitly and are
  little-endian on every host.
\<close>

type_synonym byte = "8 word"
type_synonym float32 = "32 word"

datatype byte_order = LittleEndian | BigEndian

text \<open>The four bytes of a word, least significant first, and their reassembly.\<close>

definition le_bytes :: "32 word \<Rightarrow> byte list" where
  "le_bytes bits = [ucast bits, ucast (drop_bit 8 bits), ucast (drop_bit 16 bits), ucast (drop_bit 24 bits)]"

definition le_word :: "byte \<Rightarrow> byte \<Rightarrow> byte \<Rightarrow> byte \<Rightarrow> 32 word" where
  "le_word b0 b1 b2 b3 = ucast b0 OR push_bit 8 (ucast b1) OR push_bit 16 (ucast b2) OR push_bit 24 (ucast b3)"

text \<open>The memory image of one float32 on a host, and the float32 read back from it.\<close>

definition mem_bytes :: "byte_order \<Rightarrow> float32 \<Rightarrow> byte list" where
  "mem_bytes host v = (case host of LittleEndian \<Rightarrow> le_bytes v | BigEndian \<Rightarrow> rev (le_bytes v))"

definition mem_word :: "byte_order \<Rightarrow> byte list \<Rightarrow> nat \<Rightarrow> float32" where
  "mem_word host b i = (case host of
      LittleEndian \<Rightarrow> le_word (b ! (i*4)) (b ! (i*4+1)) (b ! (i*4+2)) (b ! (i*4+3))
    | BigEndian \<Rightarrow> le_word (b ! (i*4+3)) (b ! (i*4+2)) (b ! (i*4+1)) (b ! (i*4)))"

definition float32ToBytes :: "byte_order \<Rightarrow> float32 list \<Rightarrow> byte list" where
  "float32ToBytes host f = (if length f = 0 then [] else concat (map (mem_bytes host) f))"

definition bytesToFloat32 :: "byte_order \<Rightarrow> byte list \<Rightarrow> float32 list" where
  "bytesToFloat32 host b =
     (if length b = 0 then []
      else if length b mod 4 \<noteq> 0 then []
      else map (mem_word host b) [0..<length b div 4])"

text \<open>
  \<^verbatim>\<open>float32ToBytesAlloc\<close>: the loop \<^verbatim>\<open>for i, v := range f\<close> writes four bytes
  into the buffer made by \<^verbatim>\<open>make([]byte, len(f)*4)\<close>.
\<close>

definition float32ToBytesAlloc :: "float32 list \<Rightarrow> byte list" where
  "float32ToBytesAlloc f =
     (if length f = 0 then []
      else foldl (\<lambda>b (i, v).
                    let bits = v in
                    b[i*4 := ucast bits,
                      i*4+1 := ucast (drop_bit 8 bits),
                      i*4+2 := ucast (drop_bit 16 bits),
                      i*4+3 := ucast (drop_bit 24 bits)])
                 (replicate (length f * 4) 0) (enumerate 0 f))"

definition bytesToFloat32Alloc :: "byte list \<Rightarrow> float32 list" where
  "bytesToFloat32Alloc b =
     (if length b = 0 \<or> length b mod 4 \<noteq> 0 then []
      else map (\<lambda>i. let bits = ucast (b ! (i*4)) OR push_bit 8 (ucast (b ! (i*4+1))) OR
                               push_bit 16 (ucast (b ! (i*4+2))) OR push_bit 24 (ucast (b ! (i*4+3)))
                    in bits)
               [0..<length b div 4])"

section \<open>LRU cache (internal/cache/lru.go)\<close>

text \<open>
  The cache holds a map from keys to list elements and a doubly linked list of entries,
  most recently used first. The model keeps the list, \<open>order\<close>, front first; the map
  \<open>items\<close> is the lookup in that list (the code keeps the two in step: every entry is
  added to and removed from both). The mutex and the atomic counters are sequential here.
\<close>

record ('k, 'v) LRU =
  capacity :: int
  order :: "('k \<times> 'v) list"
  hits :: int
  misses :: int

definition NewLRU :: "int \<Rightarrow> ('k, 'v) LRU" where
  "NewLRU cap = \<lparr>capacity = cap, order = [], hits = 0, misses = 0\<rparr>"

definition items :: "('k, 'v) LRU \<Rightarrow> 'k \<Rightarrow> 'v option" where
  "items c key = map_of (order c) key"

text \<open>
  \<^verbatim>\<open>Get\<close>: a miss counts a miss and returns \<open>None\<close> (the pair \<^verbatim>\<open>(zero, false)\<close>);
  a hit counts a hit and moves the element to the front.
\<close>

definition LRU_Get :: "('k, 'v) LRU \<Rightarrow> 'k \<Rightarrow> ('k, 'v) LRU \<times> 'v option" where
  "LRU_Get c key =
     (case items c key of
        None \<Rightarrow> (c\<lparr>misses := misses c + 1\<rparr>, None)
      | Some v \<Rightarrow>
          (c\<lparr>hits := hits c + 1, order := (key, v) # remove1 (key, v) (order c)\<rparr>, Some v))"

text \<open>
  \<^verbatim>\<open>Put\<close>: an existing key is moved to the front and its value replaced; otherwise,
  when \<^verbatim>\<open>order.Len() >= capacity\<close> and the list has a back element, that element is
  removed, and the new entry is pushed to the front.
\<close>

definition LRU_Put :: "('k, 'v) LRU \<Rightarrow> 'k \<Rightarrow> 'v \<Rightarrow> ('k, 'v) LRU" where
  "LRU_Put c key val =
     (case items c key of
        Some old \<Rightarrow> c\<lparr>order := (key, val) # remove1 (key, old) (order c)\<rparr>
      | None \<Rightarrow>
          (let c1 = (if int (length (order c)) \<ge> capacity c
                     then (if order c = [] then c else c\<lparr>order := butlast (order c)\<rparr>)
                     else c)
           in c1\<lparr>order := (key, val) # order c1\<rparr>))"

definition LRU_Len :: "('k, 'v) LRU \<Rightarrow> int" where
  "LRU_Len c = int (length (order c))"

text \<open>A sequence of \<^verbatim>\<open>Put\<close> calls, in order.\<close>

definition put_all :: "('k, 'v) LRU \<Rightarrow> ('k \<times> 'v) list \<Rightarrow> ('k, 'v) LRU" where
  "put_all c kvs = foldl (\<lambda>c (k, v). LRU_Put c k v) c kvs"

section \<open>Vector kernel (package simd)\<close>

text \<open>
  The kernel computes with float32 values. They are modelled by the real numbers they
  denote, and \<^verbatim>\<open>+\<close>, \<^verbatim>\<open>*\<close>, \<^verbatim>\<open>/\<close> are exact: rounding, overflow, infinities
  and NaN are outside this model. Slices are lists; an index that the code could read
  out of range is checked in the model and panics there as it does in Go.

  \<^verbatim>\<open>sqrt32\<close> starts Newton's iteration for the inverse square root from the float32
  whose bits are \<^verbatim>\<open>0x5f3759df - (bits(x) >> 1)\<close>. That reinterpretation of memory has
  no counterpart on real numbers, so the initial guess is the parameter \<open>guess\<close>; the
  guard and the two Newton steps are the code's.
\<close>

definition sqrt32 :: "(real \<Rightarrow> real) \<Rightarrow> real \<Rightarrow> real" where
  "sqrt32 guess x =
     (if x \<le> 0 then 0
      else let y = guess x;
               y = y * (1.5 - (0.5 * x * y * y));
               y = y * (1.5 - (0.5 * x * y * y))
           in x * y)"

text \<open>
  \<^verbatim>\<open>CosineSimilarity\<close>: the loop unrolled by 8 over \<^verbatim>\<open>i < limit\<close>, then the loop
  over the remaining elements. Every index read is below \<^verbatim>\<open>n = len(a) = len(b)\<close>.
\<close>

function cosine_unrolled ::
  "real list \<Rightarrow> real list \<Rightarrow> nat \<Rightarrow> nat \<Rightarrow> real \<times> real \<times> real \<Rightarrow> real \<times> real \<times> real" where
  "cosine_unrolled a b limit i (dotProduct, normA, normB) =
     (if i < limit then
        cosine_unrolled a b limit (i + 8)
          (dotProduct + (a!i * b!i + a!(i+1) * b!(i+1) + a!(i+2) * b!(i+2) + a!(i+3) * b!(i+3) +
                         a!(i+4) * b!(i+4) + a!(i+5) * b!(i+5) + a!(i+6) * b!(i+6) + a!(i+7) * b!(i+7)),
           normA + (a!i * a!i + a!(i+1) * a!(i+1) + a!(i+2) * a!(i+2) + a!(i+3) * a!(i+3) +
                    a!(i+4) * a!(i+4) + a!(i+5) * a!(i+5) + a!(i+6) * a!(i+6) + a!(i+7) * a!(i+7)),
           normB + (b!i * b!i + b!(i+1) * b!(i+1) + b!(i+2) * b!(i+2) + b!(i+3) * b!(i+3) +
                    b!(i+4) * b!(i+4) + b!(i+5) * b!(i+5) + b!(i+6) * b!(i+6) + b!(i+7) * b!(i+7)))
      else (dotProduct, normA, normB))"
  by pat_completeness auto
termination
  by (relation "measure (\<lambda>(a, b, limit, i, acc). limit - i)") auto

function cosine_rest ::
  "real list \<Rightarrow> real list \<Rightarrow> nat \<Rightarrow> nat \<Rightarrow> real \<times> real \<times> real \<Rightarrow> real \<times> real \<times> real" where
  "cosine_rest a b n i (dotProduct, normA, normB) =
     (if i < n then
        cosine_rest a b n (i + 1)
          (dotProduct + a!i * b!i, normA + a!i * a!i, normB + b!i * b!i)
      else (dotProduct, normA, normB))"
  by pat_completeness auto
termination
  by (relation "measure (\<lambda>(a, b, n, i, acc). n - i)") auto

definition CosineSimilarity :: "(real \<Rightarrow> real) \<Rightarrow> real list \<Rightarrow> real list \<Rightarrow> real" where
  "CosineSimilarity guess a b =
     (if length a \<noteq> length b \<or> length a = 0 then 0
      else let n = length a;
               limit = n - (n mod 8);
               (dotProduct, normA, normB) =
                  cosine_rest a b n limit (cosine_unrolled a b limit 0 (0, 0, 0))
           in if normA = 0 \<or> normB = 0 then 0
              else dotProduct / (sqrt32 guess normA * sqrt32 guess normB))"

text \<open>
  \<^verbatim>\<open>BatchCosineSimilarity\<close>. The loops run over \<^verbatim>\<open>len(target)\<close> and read
  \<^verbatim>\<open>query[j]\<close>, and the result is written to \<^verbatim>\<open>similarities[i]\<close>: each of these
  reads and writes is in range or panics. The function returns the updated
  \<^verbatim>\<open>similarities\<close>, or the panic.
\<close>

datatype panic = IndexOutOfRange | SliceBoundsOutOfRange

function batch_unrolled ::
  "real list \<Rightarrow> real list \<Rightarrow> nat \<Rightarrow> nat \<Rightarrow> real \<times> real \<Rightarrow> panic + real \<times> real" where
  "batch_unrolled query target limit j (dot, targetNorm) =
     (if j < limit then
        (if j + 7 < length query \<and> j + 7 < length target then
           batch_unrolled query target limit (j + 8)
             (dot + (query!j * target!j + query!(j+1) * target!(j+1) +
                      query!(j+2) * target!(j+2) + query!(j+3) * target!(j+3) +
                      query!(j+4) * target!(j+4) + query!(j+5) * target!(j+5) +
                      query!(j+6) * target!(j+6) + query!(j+7) * target!(j+7)),
              targetNorm + (target!j * target!j + target!(j+1) * target!(j+1) +
                      target!(j+2) * target!(j+2) + target!(j+3) * target!(j+3) +
                      target!(j+4) * target!(j+4) + target!(j+5) * target!(j+5) +
                      target!(j+6) * target!(j+6) + target!(j+7) * target!(j+7)))
         else Inl IndexOutOfRange)
      else Inr (dot, targetNorm))"
  by pat_completeness auto
termination
  by (relation "measure (\<lambda>(query, target, limit, j, acc). limit - j)") auto

function batch_rest ::
  "real list \<Rightarrow> real list \<Rightarrow> nat \<Rightarrow> nat \<Rightarrow> real \<times> real \<Rightarrow> panic + real \<times> real" where
  "batch_rest query target n j (dot, targetNorm) =
     (if j < n then
        (if j < length query \<and> j < length target then
           batch_rest query target n (j + 1)
             (dot + query!j * target!j, targetNorm + target!j * target!j)
         else Inl IndexOutOfRange)
      else Inr (dot, targetNorm))"
  by pat_completeness auto
termination
  by (relation "measure (\<lambda>(query, target, n, j, acc). n - j)") auto

fun batch_targets ::
  "(real \<Rightarrow> real) \<Rightarrow> real list \<Rightarrow> real \<Rightarrow> real list list \<Rightarrow> nat \<Rightarrow> real list \<Rightarrow> panic + real list" where
  "batch_targets guess query invQueryNorm [] i similarities = Inr similarities"
| "batch_targets guess query invQueryNorm (target # targets) i similarities =
     (let n = length target;
          limit = n - (n mod 8)
      in case batch_unrolled query target limit 0 (0, 0) of
           Inl p \<Rightarrow> Inl p
         | Inr acc \<Rightarrow>
            (case batch_rest query target n limit acc of
               Inl p \<Rightarrow> Inl p
             | Inr (dot, targetNorm) \<Rightarrow>
                 if i < length similarities then
                   batch_targets guess query invQueryNorm targets (i + 1)
                     (similarities[i := (if targetNorm = 0 then 0
                                         else dot * invQueryNorm / sqrt32 guess targetNorm)])
                 else Inl IndexOutOfRange))"

definition BatchCosineSimilarity ::
  "(real \<Rightarrow> real) \<Rightarrow> real list \<Rightarrow> real list list \<Rightarrow> real list \<Rightarrow> panic + real list" where
  "BatchCosineSimilarity guess query targets similarities =
     (let queryNorm = sqrt32 guess (foldl (\<lambda>queryNorm v. queryNorm + v * v) 0 query)
      in if queryNorm = 0 then Inr (map (\<lambda>_. 0) similarities)
         else batch_targets guess query (1 / queryNorm) targets 0 similarities)"

text \<open>
  The mathematical notions the specification speaks of: the inner product, the L2 norm,
  and the exact inverse square root, which Newton's iteration leaves fixed and which
  stands for "no floating-point error" in \<^verbatim>\<open>sqrt32\<close>.
\<close>

definition inner_product :: "real list \<Rightarrow> real list \<Rightarrow> real" where
  "inner_product a b = (\<Sum>i<length a. a ! i * b ! i)"


definition exact_guess :: "real \<Rightarrow> real" where
  "exact_guess x = 1 / sqrt x"


section \<open>Embedding cache (internal/cache/lru.go)\<close>

text \<open>
  The embedding cache stores slices, and a slice shares its backing array with every
  copy of the slice header. The heap is the list of backing arrays; a slice is the
  index of its array (the code takes no sub-slices). \<^verbatim>\<open>make\<close> appends a new array.
  \<^verbatim>\<open>hashContent\<close> is SHA-256 cut to 128 bits and hex-encoded; the hash is the standard
  library's and is the parameter \<open>hashContent\<close>.
\<close>

type_synonym slice = nat

record cache_state =
  heap :: "float32 list list"
  cache :: "(string, slice) LRU"

definition NewEmbeddingCache :: "float32 list list \<Rightarrow> int \<Rightarrow> cache_state" where
  "NewEmbeddingCache h cap = \<lparr>heap = h, cache = NewLRU cap\<rparr>"

definition EmbeddingCache_Get ::
  "(string \<Rightarrow> string) \<Rightarrow> cache_state \<Rightarrow> string \<Rightarrow> cache_state \<times> slice option" where
  "EmbeddingCache_Get hashContent c content =
     (let key = hashContent content;
          (lru, r) = LRU_Get (cache c) key
      in (c\<lparr>cache := lru\<rparr>, r))"

text \<open>
  \<^verbatim>\<open>Put\<close> makes a new array, copies the embedding into it and stores the new slice.
  \<^verbatim>\<open>Get\<close> above returns the slice that \<^verbatim>\<open>LRU.Get\<close> returns, which is the stored one.
\<close>

definition EmbeddingCache_Put ::
  "(string \<Rightarrow> string) \<Rightarrow> cache_state \<Rightarrow> string \<Rightarrow> slice \<Rightarrow> cache_state" where
  "EmbeddingCache_Put hashContent c content embedding =
     (let key = hashContent content;
          embCopy = length (heap c);
          h = heap c @ [heap c ! embedding]
      in \<lparr>heap = h, cache = LRU_Put (cache c) key embCopy\<rparr>)"

text \<open>
  What a caller does with a slice: the assignment \<^verbatim>\<open>w[i] = x\<close>, which panics out of
  range, and reading the elements.
\<close>

definition slice_set :: "cache_state \<Rightarrow> slice \<Rightarrow> nat \<Rightarrow> float32 \<Rightarrow> panic + cache_state" where
  "slice_set c w i x =
     (if i < length (heap c ! w) then Inr (c\<lparr>heap := (heap c)[w := (heap c ! w)[i := x]]\<rparr>)
      else Inl IndexOutOfRange)"

definition slice_read :: "cache_state \<Rightarrow> slice option \<Rightarrow> float32 list option" where
  "slice_read c r = map_option (\<lambda>w. heap c ! w) r"

section \<open>Types (pkg/types, internal/store/store.go)\<close>

text \<open>
  A Go \<^verbatim>\<open>error\<close> is a message, or a message wrapping another error
  (\<^verbatim>\<open>fmt.Errorf("...: %w", err)\<close>).
\<close>

datatype error = Err string | Wrap string error

text \<open>
  Modelled from the spec: package \<^verbatim>\<open>pkg/types\<close> is not among the sources. The records
  \<open>Memory\<close> and \<open>SearchResult\<close> have the fields the store and the service read and
  write, typed as section 3 of the specification says. A \<^verbatim>\<open>MemoryType\<close> is its string, the
  metadata is a map from strings to strings, an embedding is a list of float32 bit
  patterns, and a timestamp is an integer with 0 for the zero time
  (\<^verbatim>\<open>IsZero\<close>). Record fields of different structs that share a name in Go carry a
  prefix here: \<open>so_\<close> for \<^verbatim>\<open>SearchOptions\<close>, \<open>sr_\<close> for \<^verbatim>\<open>SearchResult\<close>.
  A similarity is a float32 value, a real number in this model.
\<close>

record Memory =
  ID :: string
  Content :: string
  Project :: string
  Type :: string
  FilePath :: string
  Language :: string
  Metadata :: "string \<rightharpoonup> string"
  Embedding :: "float32 list"
  CreatedAt :: int
  UpdatedAt :: int



section \<open>Store (package sqlite)\<close>

text \<open>
  The table \<^verbatim>\<open>memories\<close> is the list of its rows in insertion order; a row has the
  columns of the schema. The metadata column holds the JSON text of the map and is
  represented by that map; a NULL or empty blob is the empty byte list.
\<close>

record row =
  col_id :: string
  col_content :: string
  col_project :: string
  col_type :: string
  col_file_path :: string
  col_language :: string
  col_metadata :: "string \<rightharpoonup> string"
  col_embedding :: "byte list"
  col_created_at :: int
  col_updated_at :: int

record Store =
  db :: "row list"
  path :: string
  dims :: int

text \<open>
  The database engine is outside the repository. Its contract is modelled: an insert
  fails on a duplicate primary key and otherwise appends the row; a transaction works on
  a copy of the table that replaces the table at commit. Any call to the engine may also
  fail for a reason of its own (I/O, a busy database, a cancelled context): the
  parameter \<open>eng\<close> says, for each call, whether it fails and with which message.
  \<open>ExecContext k\<close> is the \<open>k\<close>-th statement executed by the operation.
\<close>

datatype engine_call = BeginTx | PrepareContext | ExecContext nat | Commit | QueryContext

type_synonym engine = "engine_call \<Rightarrow> string option"

definition insert_row :: "row list \<Rightarrow> row \<Rightarrow> error + row list" where
  "insert_row table r =
     (if col_id r \<in> col_id ` set table then Inl (Err ''UNIQUE constraint failed: memories.id'')
      else Inr (table @ [r]))"

definition exec_insert :: "engine \<Rightarrow> nat \<Rightarrow> row list \<Rightarrow> row \<Rightarrow> error + row list" where
  "exec_insert eng k table r =
     (case eng (ExecContext k) of
        Some msg \<Rightarrow> Inl (Err msg)
      | None \<Rightarrow> insert_row table r)"

text \<open>
  The timestamps \<^verbatim>\<open>Add\<close> and \<^verbatim>\<open>AddBatch\<close> set on the memory they are given, and the
  arguments they bind to the insert statement. The embedding is packed by the zero-copy
  \<^verbatim>\<open>float32ToBytes\<close>.
\<close>

definition stamp :: "int \<Rightarrow> Memory \<Rightarrow> Memory" where
  "stamp now memory =
     (let memory = (if CreatedAt memory = 0 then memory\<lparr>CreatedAt := now\<rparr> else memory)
      in memory\<lparr>UpdatedAt := now\<rparr>)"

definition insert_args :: "byte_order \<Rightarrow> Memory \<Rightarrow> row" where
  "insert_args host memory =
     \<lparr>col_id = ID memory,
      col_content = Content memory,
      col_project = Project memory,
      col_type = Type memory,
      col_file_path = FilePath memory,
      col_language = Language memory,
      col_metadata = Metadata memory,
      col_embedding = float32ToBytes host (Embedding memory),
      col_created_at = CreatedAt memory,
      col_updated_at = UpdatedAt memory\<rparr>"

text \<open>
  \<^verbatim>\<open>Store.Add\<close> returns the error (\<open>None\<close> for \<^verbatim>\<open>nil\<close>), the store, and the memory
  with its timestamps. \<^verbatim>\<open>json.Marshal\<close> of a map from strings to strings cannot fail.
  The field \<open>dims\<close> of the store is not read.
\<close>

definition Store_Add ::
  "byte_order \<Rightarrow> engine \<Rightarrow> int \<Rightarrow> Store \<Rightarrow> Memory \<Rightarrow> error option \<times> Store \<times> Memory" where
  "Store_Add host eng now s memory =
     (let memory = stamp now memory
      in case exec_insert eng 0 (db s) (insert_args host memory) of
           Inl err \<Rightarrow> (Some (Wrap ''failed to insert memory: '' err), s, memory)
         | Inr table \<Rightarrow> (None, s\<lparr>db := table\<rparr>, memory))"

definition scanMemory :: "byte_order \<Rightarrow> row \<Rightarrow> Memory" where
  "scanMemory host r =
     \<lparr>ID = col_id r,
      Content = col_content r,
      Project = col_project r,
      Type = col_type r,
      FilePath = col_file_path r,
      Language = col_language r,
      Metadata = col_metadata r,
      Embedding = bytesToFloat32 host (col_embedding r),
      CreatedAt = col_created_at r,
      UpdatedAt = col_updated_at r\<rparr>"


definition Store_Get :: "byte_order \<Rightarrow> engine \<Rightarrow> Store \<Rightarrow> string \<Rightarrow> error + Memory" where
  "Store_Get host eng s ident =
     (case eng QueryContext of
        Some msg \<Rightarrow> Inl (Err msg)
      | None \<Rightarrow>
         (case find (\<lambda>r. col_id r = ident) (db s) of
            None \<Rightarrow> Inl (Err ''memory not found'')
          | Some r \<Rightarrow> Inr (scanMemory host r)))"

text \<open>
  \<^verbatim>\<open>Store.AddBatch\<close>: the loop inserts into the transaction's table \<open>tx\<close>; the first
  failing insert returns, and the deferred \<^verbatim>\<open>tx.Rollback()\<close> drops \<open>tx\<close>. Only a
  successful \<^verbatim>\<open>tx.Commit()\<close> makes \<open>tx\<close> the table.
\<close>

fun addBatch_loop ::
  "byte_order \<Rightarrow> engine \<Rightarrow> int \<Rightarrow> row list \<Rightarrow> nat \<Rightarrow> Memory list \<Rightarrow>
     error option \<times> row list \<times> Memory list" where
  "addBatch_loop host eng now tx k [] = (None, tx, [])"
| "addBatch_loop host eng now tx k (memory # memories) =
     (let memory = stamp now memory
      in case exec_insert eng k tx (insert_args host memory) of
           Inl err \<Rightarrow>
             (Some (Wrap (''failed to insert memory '' @ ID memory @ '': '') err), tx,
              memory # memories)
         | Inr tx' \<Rightarrow>
             (case addBatch_loop host eng now tx' (k + 1) memories of
                (res, tx'', memories') \<Rightarrow> (res, tx'', memory # memories')))"

definition Store_AddBatch ::
  "byte_order \<Rightarrow> engine \<Rightarrow> int \<Rightarrow> Store \<Rightarrow> Memory list \<Rightarrow>
     error option \<times> Store \<times> Memory list" where
  "Store_AddBatch host eng now s memories =
     (case eng BeginTx of
        Some msg \<Rightarrow> (Some (Wrap ''failed to begin transaction: '' (Err msg)), s, memories)
      | None \<Rightarrow>
         (case eng PrepareContext of
            Some msg \<Rightarrow> (Some (Wrap ''failed to prepare statement: '' (Err msg)), s, memories)
          | None \<Rightarrow>
             (case addBatch_loop host eng now (db s) 0 memories of
                (Some err, tx, memories') \<Rightarrow> (Some err, s, memories')
              | (None, tx, memories') \<Rightarrow>
                  (case eng Commit of
                     Some msg \<Rightarrow> (Some (Err msg), s, memories')
                   | None \<Rightarrow> (None, s\<lparr>db := tx\<rparr>, memories')))))"













text \<open>An engine on which no call fails.\<close>

definition engine_ok :: engine where
  "engine_ok call = None"

text \<open>Concrete values for the evaluations below: 1.0, 3.0 and 4.0 as float32 bits.\<close>

definition example_memory :: "string \<Rightarrow> float32 list \<Rightarrow> Memory" where
  "example_memory ident emb =
     \<lparr>ID = ident, Content = ''use context.Context first'', Project = ''moneta'',
      Type = ''pattern'', FilePath = '''', Language = ''go'', Metadata = Map.empty,
      Embedding = emb, CreatedAt = 0, UpdatedAt = 0\<rparr>"

definition example_store :: "Memory list \<Rightarrow> Store" where
  "example_store ms =
     \<lparr>db = map (insert_args LittleEndian) ms, path = ''moneta.db'', dims = 3\<rparr>"



section \<open>Service (internal/memory)\<close>











section \<open>Chunking (package chunking)\<close>

text \<open>
  Modelled from the spec: \<^verbatim>\<open>types.Chunk\<close> of package \<^verbatim>\<open>pkg/types\<close> is not among the
  sources; it has the five fields the chunkers set. The fields \<^verbatim>\<open>Content\<close> and
  \<^verbatim>\<open>Type\<close> carry the prefix \<open>ck_\<close>, the field \<^verbatim>\<open>Language\<close> of \<^verbatim>\<open>ChunkOptions\<close> the
  prefix \<open>co_\<close>. A Go string is its list of bytes and \<^verbatim>\<open>len\<close> is the length of the
  list; line numbers and sizes are integers.
\<close>

record Chunk =
  ck_Content :: string
  StartLine :: int
  EndLine :: int
  ck_Type :: string
  Name :: string

record ChunkOptions =
  co_Language :: string
  MaxSize :: int
  Overlap :: int
  Semantic :: bool


subsection \<open>The functions of package strings and bufio that the chunkers call\<close>

text \<open>
  \<^verbatim>\<open>strings.Split(content, "\n")\<close>: the segments between line feeds, one more than
  there are line feeds.
\<close>

definition LF :: char where
  "LF = CHR 0x0A"

fun Split_LF :: "string \<Rightarrow> string list" where
  "Split_LF [] = [[]]"
| "Split_LF (c # cs) =
     (if c = LF then [] # Split_LF cs
      else (case Split_LF cs of l # ls \<Rightarrow> (c # l) # ls | [] \<Rightarrow> [[c]]))"

text \<open>
  \<^verbatim>\<open>unicode.IsSpace\<close>: the six ASCII white-space characters and, in UTF-8, U+0085,
  U+00A0, U+1680, U+2000 to U+200A, U+2028, U+2029, U+202F, U+205F and U+3000.
  \<open>space_at s\<close> is the number of bytes of a white-space character at the start of
  \<open>s\<close> (0 when there is none), \<open>space_before\<close> the same at the end of a string, read
  on the reversed string. \<^verbatim>\<open>TrimSpace\<close> drops white space from both ends and
  \<^verbatim>\<open>Fields\<close> splits around runs of white space.
\<close>

definition ascii_space :: "char \<Rightarrow> bool" where
  "ascii_space c \<longleftrightarrow>
     c = CHR 0x09 \<or> c = CHR 0x0A \<or> c = CHR 0x0B \<or> c = CHR 0x0C \<or> c = CHR 0x0D \<or> c = CHR 0x20"

fun space_at :: "string \<Rightarrow> nat" where
  "space_at [] = 0"
| "space_at (c # cs) =
     (if ascii_space c then 1
      else if c = CHR 0xC2 then
        (case cs of d # _ \<Rightarrow> if d = CHR 0x85 \<or> d = CHR 0xA0 then 2 else 0 | [] \<Rightarrow> 0)
      else if c = CHR 0xE1 then
        (case cs of d # e # _ \<Rightarrow> if d = CHR 0x9A \<and> e = CHR 0x80 then 3 else 0 | _ \<Rightarrow> 0)
      else if c = CHR 0xE2 then
        (case cs of
           d # e # _ \<Rightarrow>
             if d = CHR 0x80 \<and> (((0x80::nat) \<le> of_char e \<and> of_char e \<le> (0x8A::nat)) \<or>
                                e = CHR 0xA8 \<or> e = CHR 0xA9 \<or> e = CHR 0xAF) then 3
             else if d = CHR 0x81 \<and> e = CHR 0x9F then 3
             else 0
         | _ \<Rightarrow> 0)
      else if c = CHR 0xE3 then
        (case cs of d # e # _ \<Rightarrow> if d = CHR 0x80 \<and> e = CHR 0x80 then 3 else 0 | _ \<Rightarrow> 0)
      else 0)"

fun space_before :: "string \<Rightarrow> nat" where
  "space_before [] = 0"
| "space_before (e # cs) =
     (if ascii_space e then 1
      else case cs of
             [] \<Rightarrow> 0
           | d # cs' \<Rightarrow>
              if d = CHR 0xC2 \<and> (e = CHR 0x85 \<or> e = CHR 0xA0) then 2
              else (case cs' of
                      [] \<Rightarrow> 0
                    | c # _ \<Rightarrow> if space_at [c, d, e] = 3 then 3 else 0))"

fun trim_runes :: "(string \<Rightarrow> nat) \<Rightarrow> nat \<Rightarrow> string \<Rightarrow> string" where
  "trim_runes width k [] = []"
| "trim_runes width (Suc k) (c # cs) = trim_runes width k cs"
| "trim_runes width 0 (c # cs) =
     (case width (c # cs) of 0 \<Rightarrow> c # cs | Suc n \<Rightarrow> trim_runes width n cs)"

definition TrimSpace :: "string \<Rightarrow> string" where
  "TrimSpace s = rev (trim_runes space_before 0 (rev (trim_runes space_at 0 s)))"

fun fields_from :: "nat \<Rightarrow> string \<Rightarrow> string \<Rightarrow> string list" where
  "fields_from k word [] = (if word = [] then [] else [word])"
| "fields_from (Suc k) word (c # cs) = fields_from k word cs"
| "fields_from 0 word (c # cs) =
     (case space_at (c # cs) of
        0 \<Rightarrow> fields_from 0 (word @ [c]) cs
      | Suc n \<Rightarrow> (if word = [] then fields_from n [] cs else word # fields_from n [] cs))"

definition Fields :: "string \<Rightarrow> string list" where
  "Fields s = fields_from 0 [] s"

text \<open>
  \<^verbatim>\<open>HasPrefix\<close>, and \<^verbatim>\<open>Count\<close>, \<^verbatim>\<open>Contains\<close> and \<^verbatim>\<open>Index\<close> for a separator of one
  byte, which is how the chunkers call them.
\<close>

definition HasPrefix :: "string \<Rightarrow> string \<Rightarrow> bool" where
  "HasPrefix s prefix \<longleftrightarrow> take (length prefix) s = prefix"

definition Count :: "string \<Rightarrow> char \<Rightarrow> int" where
  "Count s c = int (length (filter (\<lambda>x. x = c) s))"

definition Contains :: "string \<Rightarrow> char \<Rightarrow> bool" where
  "Contains s c \<longleftrightarrow> c \<in> set s"

definition Index :: "string \<Rightarrow> char \<Rightarrow> int" where
  "Index s c = (if c \<in> set s then int (length (takeWhile (\<lambda>x. x \<noteq> c) s)) else -1)"

text \<open>
  The lines a \<^verbatim>\<open>bufio.Scanner\<close> yields: the text before each line feed, without a
  trailing carriage return, and a last line without line feed if it is not empty. The
  scanner stops, without a line, at the first line that does not fit its buffer of 64 KiB.
\<close>

definition scanLines :: "string \<Rightarrow> string list" where
  "scanLines content =
     (let segments = Split_LF content;
          tokens = (if last segments = [] then butlast segments else segments);
          dropCR = (\<lambda>l. if l \<noteq> [] \<and> last l = CHR 0x0D then butlast l else l)
      in map dropCR (takeWhile (\<lambda>l. length l < 65536) tokens))"

subsection \<open>Line chunker\<close>






subsection \<open>Code chunker\<close>

text \<open>
  The local variables of \<^verbatim>\<open>chunkGo\<close> and \<^verbatim>\<open>chunkPython\<close>. \<^verbatim>\<open>chunkGo\<close> uses
  \<^verbatim>\<open>braceDepth\<close> and \<^verbatim>\<open>inFunc\<close>, \<^verbatim>\<open>chunkPython\<close> uses \<^verbatim>\<open>currentType\<close> and
  \<^verbatim>\<open>baseIndent\<close>. \<open>emit\<close> is the append of a chunk made from the buffer, followed by
  \<^verbatim>\<open>currentChunk.Reset()\<close>.
\<close>

record scan_state =
  chunks :: "Chunk list"
  currentChunk :: string
  currentName :: string
  currentType :: string
  startLine :: int
  lineNum :: int
  braceDepth :: int
  inFunc :: bool
  baseIndent :: int

definition scan_init :: scan_state where
  "scan_init =
     \<lparr>chunks = [], currentChunk = '''', currentName = '''', currentType = '''', startLine = 1,
      lineNum = 0, braceDepth = 0, inFunc = False, baseIndent = -1\<rparr>"

definition emit :: "scan_state \<Rightarrow> int \<Rightarrow> string \<Rightarrow> string \<Rightarrow> scan_state" where
  "emit s endLine type name =
     s\<lparr>chunks := chunks s @
          [\<lparr>ck_Content = TrimSpace (currentChunk s), StartLine = startLine s, EndLine = endLine,
            ck_Type = type, Name = name\<rparr>],
       currentChunk := ''''\<rparr>"

definition cut_at :: "char \<Rightarrow> string \<Rightarrow> string" where
  "cut_at c name = (let idx = Index name c in if idx \<noteq> -1 then take (nat idx) name else name)"

text \<open>
  \<^verbatim>\<open>chunkGo\<close>. The body of the loop, in the order of the code: the line number is
  counted, a line that starts a function closes the chunk before it, the line is
  appended, the brace depth is updated, a function that ends is emitted, and a buffer
  larger than \<^verbatim>\<open>opts.MaxSize\<close> outside a function is emitted. After the loop the rest of
  the buffer is emitted.
\<close>

definition go_func_start :: "scan_state \<Rightarrow> string \<Rightarrow> scan_state" where
  "go_func_start s line =
     (if HasPrefix (TrimSpace line) ''func '' then
        (let s = (if length (currentChunk s) > 0 then emit s (lineNum s - 1) ''function'' (currentName s)
                  else s);
             s = s\<lparr>startLine := lineNum s, inFunc := True\<rparr>;
             parts = Fields (TrimSpace line)
         in if length parts \<ge> 2 then s\<lparr>currentName := cut_at (CHR ''('') (parts ! 1)\<rparr> else s)
      else s)"

definition go_func_end :: "scan_state \<Rightarrow> string \<Rightarrow> scan_state" where
  "go_func_end s line =
     (if inFunc s \<and> braceDepth s = 0 \<and> Contains line (CHR ''}'') then
        (emit s (lineNum s) ''function'' (currentName s))
          \<lparr>currentName := '''', startLine := lineNum s + 1, inFunc := False\<rparr>
      else s)"

definition go_max_size :: "ChunkOptions \<Rightarrow> scan_state \<Rightarrow> scan_state" where
  "go_max_size opts s =
     (if int (length (currentChunk s)) > MaxSize opts \<and> \<not> inFunc s then
        (emit s (lineNum s) ''text'' '''')\<lparr>startLine := lineNum s + 1\<rparr>
      else s)"

definition go_step :: "ChunkOptions \<Rightarrow> scan_state \<Rightarrow> string \<Rightarrow> scan_state" where
  "go_step opts s line =
     (let s = s\<lparr>lineNum := lineNum s + 1\<rparr>;
          s = go_func_start s line;
          s = s\<lparr>currentChunk := currentChunk s @ line @ [LF]\<rparr>;
          s = s\<lparr>braceDepth := braceDepth s + (Count line (CHR ''{'') - Count line (CHR ''}''))\<rparr>;
          s = go_func_end s line
      in go_max_size opts s)"

definition flush :: "scan_state \<Rightarrow> string \<Rightarrow> Chunk list" where
  "flush s type =
     (if length (currentChunk s) > 0 then chunks (emit s (lineNum s) type (currentName s))
      else chunks s)"

definition chunkGo :: "string \<Rightarrow> ChunkOptions \<Rightarrow> Chunk list" where
  "chunkGo content opts = flush (foldl (go_step opts) scan_init (scanLines content)) ''text''"










definition line_range_ok :: "int \<Rightarrow> Chunk \<Rightarrow> bool" where
  "line_range_ok n c \<longleftrightarrow> 1 \<le> StartLine c \<and> StartLine c \<le> EndLine c \<and> EndLine c \<le> n"


text \<open>Inputs for the evaluations below.\<close>

definition example_go_options :: "int \<Rightarrow> ChunkOptions" where
  "example_go_options n = \<lparr>co_Language = ''go'', MaxSize = n, Overlap = 0, Semantic = True\<rparr>"


section \<open>Properties\<close>

subsection \<open>Byte packing\<close>

lemma le_word_bytes:
  "le_word (ucast w) (ucast (drop_bit 8 w)) (ucast (drop_bit 16 w)) (ucast (drop_bit 24 w)) = (w :: 32 word)"
  unfolding le_word_def
  apply (rule bit_word_eqI)
  subgoal for n
    by (cases "n < 8"; cases "n < 16"; cases "n < 24") (auto simp add: bit_simps)
  done

lemma length_le_bytes [simp]: "length (le_bytes w) = 4"
  by (simp add: le_bytes_def)

lemma length_mem_bytes [simp]: "length (mem_bytes host w) = 4"
  by (cases host) (simp_all add: mem_bytes_def)

lemma length_concat_quads:
  "(\<And>x. length (g x) = 4) \<Longrightarrow> length (concat (map g f)) = 4 * length f"
  by (induction f) simp_all

lemma nth_concat_quads:
  "(\<And>x. length (g x) = 4) \<Longrightarrow> i < length f \<Longrightarrow> j < 4 \<Longrightarrow>
     concat (map g f) ! (i * 4 + j) = g (f ! i) ! j"
proof (induction f arbitrary: i)
  case Nil
  then show ?case by simp
next
  case (Cons x f)
  show ?case
  proof (cases i)
    case 0
    with Cons.prems show ?thesis by (simp add: nth_append)
  next
    case (Suc k)
    with Cons.prems have "k < length f" by simp
    from Cons.IH [OF Cons.prems(1) this Cons.prems(3)] Suc Cons.prems(1) [of x]
    show ?thesis by (simp add: nth_append)
  qed
qed

lemma mem_word_mem_bytes:
  assumes "i < length f"
  shows "mem_word host (concat (map (mem_bytes host) f)) i = f ! i"
proof -
  have q: "\<And>j. j < 4 \<Longrightarrow>
      concat (map (mem_bytes host) f) ! (i * 4 + j) = mem_bytes host (f ! i) ! j"
    by (rule nth_concat_quads) (simp_all add: assms)
  from q [of 0] q [of 1] q [of 2] q [of 3] show ?thesis
    by (cases host) (simp_all add: mem_word_def mem_bytes_def le_bytes_def le_word_bytes)
qed

lemma bytesToFloat32_float32ToBytes:
  "bytesToFloat32 host (float32ToBytes host f) = f"
proof (cases "f = []")
  case True
  then show ?thesis by (simp add: bytesToFloat32_def float32ToBytes_def)
next
  case False
  have len: "length (concat (map (mem_bytes host) f)) = 4 * length f"
    by (rule length_concat_quads) simp
  have "map (mem_word host (concat (map (mem_bytes host) f))) [0..<length f] = f"
    by (rule nth_equalityI) (simp_all add: mem_word_mem_bytes)
  with False len show ?thesis
    by (simp add: bytesToFloat32_def float32ToBytes_def)
qed

lemma take_quad:
  assumes "4 * Suc k \<le> length b"
  shows "take (4 * Suc k) b = take (4 * k) b @ [b ! (k*4), b ! (k*4+1), b ! (k*4+2), b ! (k*4+3)]"
proof -
  have e: "4 * Suc k = Suc (Suc (Suc (Suc (k*4))))" by simp
  have e2: "k*4+2 = Suc (Suc (k*4))" and e3: "k*4+3 = Suc (Suc (Suc (k*4)))" by simp_all
  from assms show ?thesis
    unfolding e e2 e3 by (simp add: take_Suc_conv_app_nth mult.commute)
qed

lemma alloc_loop:
  "4 * (k + length f) \<le> length b \<Longrightarrow>
   foldl (\<lambda>b (i, v).
            let bits = v in
            b[i*4 := ucast bits,
              i*4+1 := ucast (drop_bit 8 bits),
              i*4+2 := ucast (drop_bit 16 bits),
              i*4+3 := ucast (drop_bit 24 bits)]) b (enumerate k f)
   = take (4 * k) b @ concat (map le_bytes f) @ drop (4 * (k + length f)) b"
proof (induction f arbitrary: k b)
  case Nil
  then show ?case by simp
next
  case (Cons v f)
  let ?b = "b[k*4 := ucast v, k*4+1 := ucast (drop_bit 8 v),
              k*4+2 := ucast (drop_bit 16 v), k*4+3 := ucast (drop_bit 24 v)]"
  from Cons.prems have len: "4 * (Suc k + length f) \<le> length ?b" by simp
  have t0: "take (4 * k) ?b = take (4 * k) b" by simp
  have n0: "?b ! (k*4) = ucast v" "?b ! (k*4+1) = ucast (drop_bit 8 v)"
           "?b ! (k*4+2) = ucast (drop_bit 16 v)" "?b ! (k*4+3) = ucast (drop_bit 24 v)"
    using Cons.prems by simp_all
  have tk: "take (4 * Suc k) ?b = take (4 * k) b @ le_bytes v"
    using take_quad [of k ?b] len t0 n0 by (simp add: le_bytes_def)
  have dr: "drop (4 * (Suc k + length f)) ?b = drop (4 * (Suc k + length f)) b"
    by (simp add: drop_update_cancel)
  show ?case
    using Cons.IH [OF len] tk dr by (simp add: Let_def)
qed

lemma float32ToBytesAlloc_eq:
  "float32ToBytesAlloc f = concat (map le_bytes f)"
proof (cases "f = []")
  case True
  then show ?thesis by (simp add: float32ToBytesAlloc_def)
next
  case False
  have "length (concat (map le_bytes f)) = 4 * length f"
    by (rule length_concat_quads) simp
  with False alloc_loop [of 0 f "replicate (length f * 4) 0"] show ?thesis
    by (simp add: float32ToBytesAlloc_def mult.commute)
qed

lemma float32ToBytesAlloc_LE: "float32ToBytesAlloc f = float32ToBytes LittleEndian f"
  by (simp add: float32ToBytesAlloc_eq float32ToBytes_def mem_bytes_def [abs_def])

lemma bytesToFloat32Alloc_LE: "bytesToFloat32Alloc b = bytesToFloat32 LittleEndian b"
  by (simp add: bytesToFloat32Alloc_def bytesToFloat32_def mem_word_def [abs_def] le_word_def)

lemma length_float32ToBytes: "length (float32ToBytes host f) = 4 * length f"
  by (simp add: float32ToBytes_def length_concat_quads)

text \<open>
  Claim C9. Decoding the byte encoding of a float32 slice returns the slice exactly, for
  the zero-copy pair on either host byte order, for the copying pair, and for the two
  mixed pairs on a little-endian host; the encoded blob is exactly four times as long as
  the slice; and a byte slice whose length is not divisible by 4 decodes to the empty
  slice in both decoders.
\<close>

theorem C9_roundtrip:
  "bytesToFloat32 host (float32ToBytes host f) = f \<and>
   bytesToFloat32Alloc (float32ToBytesAlloc f) = f \<and>
   bytesToFloat32Alloc (float32ToBytes LittleEndian f) = f \<and>
   bytesToFloat32 LittleEndian (float32ToBytesAlloc f) = f \<and>
   length (float32ToBytes host f) = 4 * length f \<and>
   length (float32ToBytesAlloc f) = 4 * length f \<and>
   (length b mod 4 \<noteq> 0 \<longrightarrow> bytesToFloat32 host b = [] \<and> bytesToFloat32Alloc b = [])"
  by (simp add: bytesToFloat32_float32ToBytes float32ToBytesAlloc_LE bytesToFloat32Alloc_LE
      length_float32ToBytes) (simp add: bytesToFloat32_def)

theorem C9_roundtrip_witness:
  "bytesToFloat32 LittleEndian (float32ToBytes LittleEndian [0x3F800000, 0xC0490FDB]) = [0x3F800000, 0xC0490FDB] \<and>
   float32ToBytesAlloc [0x3F800000, 0xC0490FDB] = [0x00, 0x00, 0x80, 0x3F, 0xDB, 0x0F, 0x49, 0xC0] \<and>
   bytesToFloat32Alloc [0x00, 0x00, 0x80, 0x3F, 0xDB] = [] \<and>
   bytesToFloat32 BigEndian [0x00, 0x00, 0x80, 0x3F, 0xDB] = []"
  using C9_roundtrip [of LittleEndian "[0x3F800000, 0xC0490FDB]" "[0x00, 0x00, 0x80, 0x3F, 0xDB]"]
        C9_roundtrip [of BigEndian "[0x3F800000, 0xC0490FDB]" "[0x00, 0x00, 0x80, 0x3F, 0xDB]"]
  by (simp add: float32ToBytesAlloc_LE float32ToBytes_def mem_bytes_def le_bytes_def)

subsection \<open>LRU eviction\<close>

lemma capacity_LRU_Put [simp]: "capacity (LRU_Put c k v) = capacity c"
  by (simp add: LRU_Put_def Let_def split: option.splits)

lemma put_all_snoc: "put_all c (kvs @ [(k, v)]) = LRU_Put (put_all c kvs) k v"
  by (simp add: put_all_def)

lemma capacity_put_all [simp]: "capacity (put_all c kvs) = capacity c"
  by (induction kvs rule: rev_induct) (auto simp add: put_all_snoc, simp add: put_all_def)

lemma order_put_all:
  assumes "distinct (map fst kvs)"
  shows "order (put_all (NewLRU C) kvs) = take (max 1 (nat C)) (rev kvs)"
  using assms
proof (induction kvs rule: rev_induct)
  case Nil
  show ?case by (simp add: put_all_def NewLRU_def)
next
  case (snoc kv kvs)
  obtain k v where kv: "kv = (k, v)" by (cases kv)
  let ?c = "put_all (NewLRU C) kvs"
  from snoc.prems kv have fresh: "k \<notin> fst ` set kvs" and d: "distinct (map fst kvs)"
    by auto
  obtain n where n: "max 1 (nat C) = Suc n" by (cases "max 1 (nat C)") auto
  have ord: "order ?c = take (Suc n) (rev kvs)" using snoc.IH d n by simp
  have cap: "capacity ?c = C" by (simp add: NewLRU_def)
  have "k \<notin> fst ` set (take (Suc n) (rev kvs))"
    using fresh by (auto dest!: in_set_takeD)
  then have miss: "items ?c k = None"
    by (simp add: items_def ord map_of_eq_None_iff)
  show ?case
  proof (cases "int (length (order ?c)) \<ge> C")
    case True
    show ?thesis
    proof (cases "kvs = []")
      case True
      with miss cap n show ?thesis
        by (simp add: kv put_all_snoc LRU_Put_def Let_def put_all_def NewLRU_def)
    next
      case False
      then have ne: "order ?c \<noteq> []" using ord by simp
      have len: "Suc n \<le> length kvs \<or> n = 0"
        using True ord n by (auto simp add: min_def max_def split: if_splits)
      have "butlast (take (Suc n) (rev kvs)) = take n (rev kvs)"
      proof (cases "n = 0")
        case True
        then show ?thesis by (cases "rev kvs") simp_all
      next
        case False
        with len show ?thesis by (simp add: butlast_take)
      qed
      with True ne miss cap ord n show ?thesis
        by (simp add: kv put_all_snoc LRU_Put_def Let_def)
    qed
  next
    case False
    then have "length kvs < Suc n" using ord n by (simp add: min_def split: if_splits)
    with False miss cap ord n show ?thesis
      by (simp add: kv put_all_snoc LRU_Put_def Let_def)
  qed
qed

text \<open>
  Claim C7. After \<open>C + 1\<close> distinct keys are put in order into a new cache of capacity
  \<open>C\<close>, \<^verbatim>\<open>Get\<close> of the last key is a hit with its value, and \<^verbatim>\<open>Get\<close> of the first key
  is a miss whenever the first key is not also the last one; that is so for every
  capacity of at least 1 (with capacity 0 there is one key, which is both). With
  capacity 2, after \<^verbatim>\<open>Put(k1); Put(k2); Get(k1); Put(k3)\<close> on distinct keys, \<open>k2\<close> is
  evicted while \<open>k1\<close> and \<open>k3\<close> are retrievable: the hit of \<^verbatim>\<open>Get(k1)\<close> counted as a use.
\<close>

theorem C7_lru_eviction:
  "(distinct (map fst kvs) \<and> int (length kvs) = C + 1 \<and> kvs \<noteq> [] \<longrightarrow>
      snd (LRU_Get (put_all (NewLRU C) kvs) (fst (last kvs))) = Some (snd (last kvs)) \<and>
      (fst (hd kvs) \<noteq> fst (last kvs) \<longrightarrow>
         snd (LRU_Get (put_all (NewLRU C) kvs) (fst (hd kvs))) = None) \<and>
      (1 \<le> C \<longrightarrow> snd (LRU_Get (put_all (NewLRU C) kvs) (fst (hd kvs))) = None)) \<and>
   (distinct [k1, k2, k3] \<longrightarrow>
      (let c0 = NewLRU 2;
           c1 = LRU_Put c0 k1 v1;
           c2 = LRU_Put c1 k2 v2;
           (c3, r) = LRU_Get c2 k1;
           c4 = LRU_Put c3 k3 v3
       in r = Some v1 \<and>
          snd (LRU_Get c4 k2) = None \<and>
          snd (LRU_Get c4 k1) = Some v1 \<and>
          snd (LRU_Get c4 k3) = Some v3))"
proof (rule conjI)
  show "distinct (map fst kvs) \<and> int (length kvs) = C + 1 \<and> kvs \<noteq> [] \<longrightarrow>
      snd (LRU_Get (put_all (NewLRU C) kvs) (fst (last kvs))) = Some (snd (last kvs)) \<and>
      (fst (hd kvs) \<noteq> fst (last kvs) \<longrightarrow>
         snd (LRU_Get (put_all (NewLRU C) kvs) (fst (hd kvs))) = None) \<and>
      (1 \<le> C \<longrightarrow> snd (LRU_Get (put_all (NewLRU C) kvs) (fst (hd kvs))) = None)"
  proof
    assume a: "distinct (map fst kvs) \<and> int (length kvs) = C + 1 \<and> kvs \<noteq> []"
    then have ord: "order (put_all (NewLRU C) kvs) = take (max 1 (nat C)) (rev kvs)"
      by (simp add: order_put_all)
    from a obtain ys y where kvs: "kvs = ys @ [y]" by (cases kvs rule: rev_cases) auto
    with a have lys: "length ys = nat C" and C0: "0 \<le> C" by auto
    have hit: "snd (LRU_Get (put_all (NewLRU C) kvs) (fst (last kvs))) = Some (snd (last kvs))"
    proof -
      obtain n where n: "max 1 (nat C) = Suc n" by (cases "max 1 (nat C)") auto
      have "order (put_all (NewLRU C) kvs) = take (Suc n) (rev kvs)" using ord n by simp
      moreover have "take (Suc n) (rev kvs) = y # take n (rev ys)" by (simp add: kvs)
      moreover have "last kvs = y" by (simp add: kvs)
      ultimately show ?thesis by (simp add: LRU_Get_def items_def)
    qed
    have miss: "snd (LRU_Get (put_all (NewLRU C) kvs) (fst (hd kvs))) = None"
      if ne: "fst (hd kvs) \<noteq> fst (last kvs)"
    proof -
      from ne kvs obtain x xs where ys: "ys = x # xs" by (cases ys) auto
      with lys have C1: "max 1 (nat C) = length (xs @ [y])" by (simp add: max_def)
      have tk: "take (max 1 (nat C)) (rev kvs) = rev (xs @ [y])"
        unfolding C1 by (simp add: kvs ys)
      from a kvs ys have "fst x \<notin> fst ` set (xs @ [y])" by auto
      then have "map_of (rev (xs @ [y])) (fst x) = None"
        by (simp add: map_of_eq_None_iff del: rev_append)
      moreover have "fst (hd kvs) = fst x" by (simp add: kvs ys)
      ultimately show ?thesis
        using ord tk by (simp add: LRU_Get_def items_def del: rev_append)
    qed
    have "fst (hd kvs) \<noteq> fst (last kvs)" if "1 \<le> C"
    proof -
      from that lys obtain x xs where ys: "ys = x # xs" by (cases ys) auto
      with a kvs show ?thesis by auto
    qed
    with hit miss show "snd (LRU_Get (put_all (NewLRU C) kvs) (fst (last kvs))) = Some (snd (last kvs)) \<and>
      (fst (hd kvs) \<noteq> fst (last kvs) \<longrightarrow>
         snd (LRU_Get (put_all (NewLRU C) kvs) (fst (hd kvs))) = None) \<and>
      (1 \<le> C \<longrightarrow> snd (LRU_Get (put_all (NewLRU C) kvs) (fst (hd kvs))) = None)"
      by blast
  qed
next
  show "distinct [k1, k2, k3] \<longrightarrow>
      (let c0 = NewLRU 2;
           c1 = LRU_Put c0 k1 v1;
           c2 = LRU_Put c1 k2 v2;
           (c3, r) = LRU_Get c2 k1;
           c4 = LRU_Put c3 k3 v3
       in r = Some v1 \<and>
          snd (LRU_Get c4 k2) = None \<and>
          snd (LRU_Get c4 k1) = Some v1 \<and>
          snd (LRU_Get c4 k3) = Some v3)"
    by (auto simp add: NewLRU_def LRU_Put_def LRU_Get_def items_def Let_def)
qed

theorem C7_lru_eviction_witness:
  "snd (LRU_Get (put_all (NewLRU 2) [(''a'', 1::int), (''b'', 2), (''c'', 3)]) ''a'') = None \<and>
   snd (LRU_Get (put_all (NewLRU 2) [(''a'', 1::int), (''b'', 2), (''c'', 3)]) ''c'') = Some 3 \<and>
   snd (LRU_Get (LRU_Put (fst (LRU_Get (LRU_Put (LRU_Put (NewLRU 2) ''a'' (1::int)) ''b'' 2) ''a'')) ''c'' 3) ''b'') = None \<and>
   snd (LRU_Get (LRU_Put (fst (LRU_Get (LRU_Put (LRU_Put (NewLRU 2) ''a'' (1::int)) ''b'' 2) ''a'')) ''c'' 3) ''a'') = Some 1"
  using C7_lru_eviction [of "[(''a'', 1::int), (''b'', 2), (''c'', 3)]" 2 "''a''" "''b''" "''c''" 1 2 3]
  by (simp add: Let_def NewLRU_def LRU_Put_def LRU_Get_def items_def put_all_def)

subsection \<open>Vector kernel\<close>

lemma sum8: "(\<Sum>k = i..<i + 8. f k) =
   (f i + f (i+1) + f (i+2) + f (i+3) + f (i+4) + f (i+5) + f (i+6) + f (i+7) :: real)"
  for i :: nat
proof -
  have "{i..<i + 8} = {i, i+1, i+2, i+3, i+4, i+5, i+6, i+7}" by auto
  then show ?thesis by (simp add: add.assoc)
qed

declare cosine_unrolled.simps [simp del] cosine_rest.simps [simp del]

lemma cosine_unrolled_sum:
  "8 dvd i \<Longrightarrow> 8 dvd limit \<Longrightarrow> i \<le> limit \<Longrightarrow>
   cosine_unrolled a b limit i (d, na, nb) =
     (d + (\<Sum>k = i..<limit. a!k * b!k), na + (\<Sum>k = i..<limit. a!k * a!k),
      nb + (\<Sum>k = i..<limit. b!k * b!k))"
proof (induction a b limit i "(d, na, nb)" arbitrary: d na nb rule: cosine_unrolled.induct)
  case (1 a b limit i d na nb)
  show ?case
  proof (cases "i < limit")
    case False
    with "1.prems" show ?thesis by (simp add: cosine_unrolled.simps)
  next
    case True
    from "1.prems" True have le: "i + 8 \<le> limit"
      by (elim dvdE) auto
    have split: "\<And>f :: nat \<Rightarrow> real. (\<Sum>k = i..<limit. f k) = (\<Sum>k = i..<i + 8. f k) + (\<Sum>k = i + 8..<limit. f k)"
      using le by (simp add: sum.atLeastLessThan_concat)
    have d8: "8 dvd i + 8" using "1.prems"(1) by simp
    show ?thesis
      apply (subst cosine_unrolled.simps)
      apply (simp only: True if_True)
      apply (subst "1.hyps" [OF True d8 "1.prems"(2) le])
      apply (simp only: split [of "\<lambda>k. a!k * b!k"] split [of "\<lambda>k. a!k * a!k"]
                split [of "\<lambda>k. b!k * b!k"] sum8)
      apply (simp add: add.assoc)
      done
  qed
qed

lemma cosine_rest_sum:
  "i \<le> n \<Longrightarrow>
   cosine_rest a b n i (d, na, nb) =
     (d + (\<Sum>k = i..<n. a!k * b!k), na + (\<Sum>k = i..<n. a!k * a!k),
      nb + (\<Sum>k = i..<n. b!k * b!k))"
proof (induction a b n i "(d, na, nb)" arbitrary: d na nb rule: cosine_rest.induct)
  case (1 a b n i d na nb)
  show ?case
  proof (cases "i < n")
    case False
    with "1.prems" show ?thesis by (simp add: cosine_rest.simps)
  next
    case True
    then have le: "i + 1 \<le> n" by simp
    show ?thesis
      apply (subst cosine_rest.simps)
      apply (simp only: True if_True)
      apply (subst "1.hyps" [OF True le])
      using True apply (simp add: sum.atLeast_Suc_lessThan add.assoc)
      done
  qed
qed

lemma cosine_loops:
  "cosine_rest a b n (n - n mod 8) (cosine_unrolled a b (n - n mod 8) 0 (0, 0, 0)) =
     ((\<Sum>k<n. a!k * b!k), (\<Sum>k<n. a!k * a!k), (\<Sum>k<n. b!k * b!k))"
proof -
  have dv: "8 dvd n - n mod 8" by (simp add: dvd_minus_mod)
  have le: "n - n mod 8 \<le> n" by simp
  have split: "\<And>f :: nat \<Rightarrow> real. (\<Sum>k<n. f k) = (\<Sum>k = 0..<n - n mod 8. f k) + (\<Sum>k = n - n mod 8..<n. f k)"
    using le by (simp add: sum.atLeastLessThan_concat atLeast0LessThan [symmetric] del: atLeast0LessThan)
  show ?thesis
    by (simp add: cosine_unrolled_sum [OF _ dv] cosine_rest_sum [OF le] split)
qed

lemma CosineSimilarity_eq:
  "CosineSimilarity guess a b =
     (if length a \<noteq> length b \<or> a = [] then 0
      else if inner_product a a = 0 \<or> inner_product b b = 0 then 0
      else inner_product a b / (sqrt32 guess (inner_product a a) * sqrt32 guess (inner_product b b)))"
  by (auto simp add: CosineSimilarity_def cosine_loops inner_product_def Let_def)




lemma sqrt32_exact: "0 < x \<Longrightarrow> sqrt32 exact_guess x = sqrt x"
proof -
  assume x: "0 < x"
  then have s: "0 < sqrt x" by simp
  have e: "x * (1 / sqrt x) * (1 / sqrt x) = 1"
    using x s by (simp add: field_simps)
  have "x * (1 / sqrt x) = sqrt x"
    using x by (simp add: real_div_sqrt)
  with x e show ?thesis
    by (simp add: sqrt32_def exact_guess_def Let_def mult.assoc)
qed

lemma dot_self_zero_iff: "inner_product v v = 0 \<longleftrightarrow> (\<forall>x \<in> set v. x = 0)"
proof -
  have "inner_product v v = 0 \<longleftrightarrow> (\<forall>i\<in>{..<length v}. v ! i * v ! i = 0)"
    unfolding inner_product_def by (rule sum_nonneg_eq_0_iff) simp_all
  then show ?thesis by (auto simp add: all_set_conv_all_nth)
qed









lemma sqrt32_exact_1: "sqrt32 exact_guess 1 = 1"
  using sqrt32_exact [of 1] by simp

text \<open>
  Claim C3, evaluated at two inputs with \<^verbatim>\<open>len(out) = len(targets)\<close>. A target longer
  than the query makes \<^verbatim>\<open>BatchCosineSimilarity\<close> read \<^verbatim>\<open>query[1]\<close> out of range; a
  target shorter than the query gets the similarity of the query's prefix (here 1), not
  0. \<^verbatim>\<open>CosineSimilarity\<close> returns 0 on both pairs.
\<close>

theorem C3_batch_mismatched_lengths:
  "BatchCosineSimilarity exact_guess [1] [[1, 2]] [0] = Inl IndexOutOfRange \<and>
   BatchCosineSimilarity exact_guess [1, 0] [[1]] [0] = Inr [1]"
  by (simp add: BatchCosineSimilarity_def sqrt32_exact_1)

lemma CosineSimilarity_mismatched_lengths:
  "CosineSimilarity exact_guess [1] [1, 2] = 0 \<and> CosineSimilarity exact_guess [1, 0] [1] = 0"
  by (simp add: CosineSimilarity_eq)

text \<open>The part of the claim that holds: a query of norm 0 fills the output with zeros.\<close>

lemma BatchCosineSimilarity_zero_query:
  "sqrt32 guess (foldl (\<lambda>s v. s + v * v) 0 query) = 0 \<Longrightarrow>
   BatchCosineSimilarity guess query targets similarities = Inr (replicate (length similarities) 0)"
  by (simp add: BatchCosineSimilarity_def map_replicate_const)

subsection \<open>Embedding cache and aliasing\<close>

text \<open>
  Claim C4, evaluated: the embedding [1.0, 3.0] is put under a text and read back with
  \<^verbatim>\<open>Get\<close>; the caller then writes 4.0 into element 0 of the slice it received. The
  next \<^verbatim>\<open>Get\<close> for the same text returns the same slice, and its content is now
  [4.0, 3.0]: the write went into the cache's own array.
\<close>

theorem C4_get_returns_alias:
  "(let c0 = NewEmbeddingCache [[0x3F800000, 0x40400000]] 8;
        c1 = EmbeddingCache_Put hashContent c0 ''text'' 0;
        (c2, w) = EmbeddingCache_Get hashContent c1 ''text'';
        c3 = (case w of
                None \<Rightarrow> c2
              | Some a \<Rightarrow> (case slice_set c2 a 0 0x40800000 of Inr c \<Rightarrow> c | Inl p \<Rightarrow> c2));
        (c4, w') = EmbeddingCache_Get hashContent c3 ''text''
    in slice_read c2 w = Some [0x3F800000, 0x40400000] \<and>
       w' = w \<and>
       slice_read c4 w' = Some [0x40800000, 0x40400000])"
  by (simp add: NewEmbeddingCache_def EmbeddingCache_Put_def EmbeddingCache_Get_def NewLRU_def
      LRU_Put_def LRU_Get_def items_def slice_set_def slice_read_def Let_def)

text \<open>
  The part of the claim that holds: \<^verbatim>\<open>Put\<close> stores a copy, so a write into the slice
  that was passed to \<^verbatim>\<open>Put\<close> does not reach the cache.
\<close>

lemma EmbeddingCache_Put_copies:
  "(let c0 = NewEmbeddingCache [[0x3F800000, 0x40400000]] 8;
        c1 = EmbeddingCache_Put hashContent c0 ''text'' 0;
        c2 = (case slice_set c1 0 0 0x40800000 of Inr c \<Rightarrow> c | Inl p \<Rightarrow> c1);
        (c3, w) = EmbeddingCache_Get hashContent c2 ''text''
    in heap c2 ! 0 = [0x40800000, 0x40400000] \<and>
       slice_read c3 w = Some [0x3F800000, 0x40400000])"
  by (simp add: NewEmbeddingCache_def EmbeddingCache_Put_def EmbeddingCache_Get_def NewLRU_def
      LRU_Put_def LRU_Get_def items_def slice_set_def slice_read_def Let_def)

subsection \<open>Store: insertion and reading\<close>

lemma scanMemory_insert_args: "scanMemory host (insert_args host memory) = memory"
  by (simp add: scanMemory_def insert_args_def bytesToFloat32_float32ToBytes)

lemma find_append_fresh:
  "ident \<notin> col_id ` set table \<Longrightarrow>
   find (\<lambda>r. col_id r = ident) (table @ rs) = find (\<lambda>r. col_id r = ident) rs"
  by (induction table) auto

lemma find_insert_args:
  "distinct (map ID ms) \<Longrightarrow> m \<in> set ms \<Longrightarrow>
   find (\<lambda>r. col_id r = ID m) (map (insert_args host) ms) = Some (insert_args host m)"
  by (induction ms) (auto simp add: insert_args_def)

lemma ID_stamp [simp]: "ID (stamp now m) = ID m"
  by (simp add: stamp_def Let_def)

lemma Embedding_stamp [simp]: "Embedding (stamp now m) = Embedding m"
  by (simp add: stamp_def Let_def)

lemma Content_stamp [simp]: "Content (stamp now m) = Content m"
  by (simp add: stamp_def Let_def)

lemma col_id_insert_args [simp]: "col_id (insert_args host m) = ID m"
  by (simp add: insert_args_def)


lemma addBatch_loop_success:
  "addBatch_loop host eng now tx k ms = (None, tx', ms') \<Longrightarrow>
   ms' = map (stamp now) ms \<and>
   tx' = tx @ map (insert_args host) ms' \<and>
   distinct (map ID ms) \<and>
   set (map ID ms) \<inter> col_id ` set tx = {}"
proof (induction ms arbitrary: tx k tx' ms')
  case Nil
  then show ?case by simp
next
  case (Cons m ms)
  let ?m = "stamp now m"
  from Cons.prems obtain tx1 where
    ins: "exec_insert eng k tx (insert_args host ?m) = Inr tx1"
    by (auto simp add: Let_def split: sum.splits)
  from Cons.prems ins obtain rest where
    rec: "addBatch_loop host eng now tx1 (k + 1) ms = (None, tx', rest)" and ms': "ms' = ?m # rest"
    by (auto simp add: Let_def split: prod.splits)
  from ins have tx1: "tx1 = tx @ [insert_args host ?m]" and fresh: "ID m \<notin> col_id ` set tx"
    by (auto simp add: exec_insert_def insert_row_def split: option.splits if_splits)
  from Cons.IH [OF rec] have
    r: "rest = map (stamp now) ms" and t: "tx' = tx1 @ map (insert_args host) rest"
    and d: "distinct (map ID ms)" and i: "set (map ID ms) \<inter> col_id ` set tx1 = {}"
    by simp_all
  from i tx1 have "ID m \<notin> set (map ID ms)" and "set (map ID ms) \<inter> col_id ` set tx = {}"
    by auto
  with r t d fresh ms' tx1 show ?case by auto
qed

text \<open>
  Claim C5. When \<^verbatim>\<open>AddBatch\<close> returns an error, whichever call failed (begin, prepare,
  an insert, commit), the store is the store it was given. When it returns no error,
  the table is the old table followed by the rows of all memories of the batch, and
  \<^verbatim>\<open>Get\<close> returns every memory of the batch, with the timestamps \<^verbatim>\<open>AddBatch\<close> set.
\<close>

theorem C5_add_batch_atomic:
  "(\<forall>err s' ms'. Store_AddBatch host eng now s memories = (Some err, s', ms') \<longrightarrow> s' = s) \<and>
   (\<forall>s' ms'. Store_AddBatch host eng now s memories = (None, s', ms') \<longrightarrow>
      db s' = db s @ map (insert_args host) (map (stamp now) memories) \<and>
      (\<forall>m \<in> set memories. Store_Get host engine_ok s' (ID m) = Inr (stamp now m)))"
proof (intro conjI allI impI)
  fix err s' ms'
  assume "Store_AddBatch host eng now s memories = (Some err, s', ms')"
  then show "s' = s"
    by (auto simp add: Store_AddBatch_def split: option.splits prod.splits)
next
  fix s' ms'
  assume a: "Store_AddBatch host eng now s memories = (None, s', ms')"
  then obtain tx where
    loop: "addBatch_loop host eng now (db s) 0 memories = (None, tx, ms')" and s': "s' = s\<lparr>db := tx\<rparr>"
    by (auto simp add: Store_AddBatch_def split: option.splits prod.splits)
  from addBatch_loop_success [OF loop] have
    ms': "ms' = map (stamp now) memories" and tx: "tx = db s @ map (insert_args host) ms'"
    and d: "distinct (map ID memories)" and i: "set (map ID memories) \<inter> col_id ` set (db s) = {}"
    by simp_all
  show db: "db s' = db s @ map (insert_args host) (map (stamp now) memories)"
    using s' tx ms' by simp
  show "\<forall>m \<in> set memories. Store_Get host engine_ok s' (ID m) = Inr (stamp now m)"
  proof
    fix m assume m: "m \<in> set memories"
    with i have fresh: "ID m \<notin> col_id ` set (db s)" by auto
    have d': "distinct (map ID (map (stamp now) memories))"
      using d by (simp add: comp_def)
    have m': "stamp now m \<in> set (map (stamp now) memories)" using m by simp
    have "find (\<lambda>r. col_id r = ID m) (db s') = Some (insert_args host (stamp now m))"
      using find_insert_args [OF d' m', of host] fresh
      by (simp add: db find_append_fresh)
    then show "Store_Get host engine_ok s' (ID m) = Inr (stamp now m)"
      by (simp add: Store_Get_def engine_ok_def scanMemory_insert_args)
  qed
qed

theorem C5_add_batch_atomic_witness:
  "Store_AddBatch LittleEndian engine_ok 5 (example_store [example_memory ''m0'' []])
       [example_memory ''m1'' [0x3F800000], example_memory ''m0'' [0x40400000]]
     = (Some (Wrap ''failed to insert memory m0: '' (Err ''UNIQUE constraint failed: memories.id'')),
        example_store [example_memory ''m0'' []],
        [stamp 5 (example_memory ''m1'' [0x3F800000]), stamp 5 (example_memory ''m0'' [0x40400000])]) \<and>
   fst (Store_AddBatch LittleEndian engine_ok 5 (example_store [example_memory ''m0'' []])
       [example_memory ''m1'' [0x3F800000], example_memory ''m2'' [0x40400000]]) = None \<and>
   Store_Get LittleEndian engine_ok
     (fst (snd (Store_AddBatch LittleEndian engine_ok 5 (example_store [example_memory ''m0'' []])
       [example_memory ''m1'' [0x3F800000], example_memory ''m2'' [0x40400000]]))) ''m2''
     = Inr (stamp 5 (example_memory ''m2'' [0x40400000]))"
proof -
  let ?s = "example_store [example_memory ''m0'' []]"
  let ?ok = "[example_memory ''m1'' [0x3F800000], example_memory ''m2'' [0x40400000]]"
  let ?bad = "[example_memory ''m1'' [0x3F800000], example_memory ''m0'' [0x40400000]]"
  have bad: "Store_AddBatch LittleEndian engine_ok 5 ?s ?bad
     = (Some (Wrap ''failed to insert memory m0: '' (Err ''UNIQUE constraint failed: memories.id'')),
        ?s, map (stamp 5) ?bad)"
    by (simp add: Store_AddBatch_def engine_ok_def exec_insert_def insert_row_def Let_def
        example_store_def) (simp add: example_memory_def)
  have ok: "fst (Store_AddBatch LittleEndian engine_ok 5 ?s ?ok) = None"
    by (simp add: Store_AddBatch_def engine_ok_def exec_insert_def insert_row_def Let_def
        example_store_def) (simp add: example_memory_def)
  obtain s' ms' where r: "Store_AddBatch LittleEndian engine_ok 5 ?s ?ok = (None, s', ms')"
    using ok by (cases "Store_AddBatch LittleEndian engine_ok 5 ?s ?ok") auto
  from C5_add_batch_atomic [of LittleEndian engine_ok 5 ?s ?ok] r
  have "Store_Get LittleEndian engine_ok s' (ID (example_memory ''m2'' [0x40400000]))
          = Inr (stamp 5 (example_memory ''m2'' [0x40400000]))"
    by simp
  with r bad ok show ?thesis by (simp add: example_memory_def)
qed

text \<open>
  Claim C2 as stated fails: \<^verbatim>\<open>Add\<close> accepts a memory whose embedding has 2 floats in a
  store of 3 dimensions, and reading the row back yields the 2 floats, not an empty
  vector.
\<close>

theorem C2_counterexample:
  "fst (Store_Add LittleEndian engine_ok 5 (example_store [])
          (example_memory ''m1'' [0x3F800000, 0x40400000])) = None \<and>
   int (length (Embedding (example_memory ''m1'' [0x3F800000, 0x40400000])))
     \<noteq> dims (example_store []) \<and>
   Embedding (scanMemory LittleEndian
     (insert_args LittleEndian (example_memory ''m1'' [0x3F800000, 0x40400000])))
     = [0x3F800000, 0x40400000]"
  by (simp add: Store_Add_def exec_insert_def insert_row_def engine_ok_def example_store_def
      example_memory_def scanMemory_insert_args Let_def)

text \<open>
  Claim C2, amended. \<^verbatim>\<open>Add\<close> does not compare the embedding's length with the store's
  dimensions: when the id is new and the engine does not fail, it succeeds for an
  embedding of any length, and \<^verbatim>\<open>Get\<close> returns the memory with that embedding. On
  read, a blob whose length is not a multiple of 4 yields the empty embedding, and any
  other blob yields one float per 4 bytes, whatever the dimensions.
\<close>

theorem C2_add_any_length:
  "(ID memory \<notin> col_id ` set (db s) \<and> eng (ExecContext 0) = None \<longrightarrow>
      (\<exists>s'. Store_Add host eng now s memory = (None, s', stamp now memory) \<and>
            Store_Get host engine_ok s' (ID memory) = Inr (stamp now memory) \<and>
            Embedding (stamp now memory) = Embedding memory)) \<and>
   (length (col_embedding r) mod 4 \<noteq> 0 \<longrightarrow> Embedding (scanMemory host r) = []) \<and>
   (length (col_embedding r) mod 4 = 0 \<longrightarrow>
      int (length (Embedding (scanMemory host r))) = int (length (col_embedding r)) div 4)"
proof (intro conjI impI)
  assume a: "ID memory \<notin> col_id ` set (db s) \<and> eng (ExecContext 0) = None"
  let ?s' = "s\<lparr>db := db s @ [insert_args host (stamp now memory)]\<rparr>"
  from a have add: "Store_Add host eng now s memory = (None, ?s', stamp now memory)"
    by (simp add: Store_Add_def exec_insert_def insert_row_def Let_def)
  from a have "find (\<lambda>r. col_id r = ID memory) (db ?s') = Some (insert_args host (stamp now memory))"
    by (simp add: find_append_fresh)
  then have "Store_Get host engine_ok ?s' (ID memory) = Inr (stamp now memory)"
    by (simp add: Store_Get_def engine_ok_def scanMemory_insert_args)
  with add show "\<exists>s'. Store_Add host eng now s memory = (None, s', stamp now memory) \<and>
            Store_Get host engine_ok s' (ID memory) = Inr (stamp now memory) \<and>
            Embedding (stamp now memory) = Embedding memory"
    by auto
next
  assume "length (col_embedding r) mod 4 \<noteq> 0"
  then show "Embedding (scanMemory host r) = []"
    by (simp add: scanMemory_def bytesToFloat32_def)
next
  assume "length (col_embedding r) mod 4 = 0"
  then show "int (length (Embedding (scanMemory host r))) = int (length (col_embedding r)) div 4"
    by (auto simp add: scanMemory_def bytesToFloat32_def zdiv_int)
qed

theorem C2_add_any_length_witness:
  "Store_Add LittleEndian engine_ok 5 (example_store [])
       (example_memory ''m1'' [0x3F800000, 0x40400000])
     = (None, example_store [stamp 5 (example_memory ''m1'' [0x3F800000, 0x40400000])],
        stamp 5 (example_memory ''m1'' [0x3F800000, 0x40400000])) \<and>
   Store_Get LittleEndian engine_ok
       (example_store [stamp 5 (example_memory ''m1'' [0x3F800000, 0x40400000])]) ''m1''
     = Inr (stamp 5 (example_memory ''m1'' [0x3F800000, 0x40400000])) \<and>
   Embedding (scanMemory LittleEndian
       ((insert_args LittleEndian (example_memory ''m1'' []))\<lparr>col_embedding := [0, 0, 128, 63, 7]\<rparr>)) = [] \<and>
   length (Embedding (scanMemory LittleEndian
       ((insert_args LittleEndian (example_memory ''m1'' []))\<lparr>col_embedding := [0, 0, 128, 63]\<rparr>))) = 1"
proof -
  have h: "ID (example_memory ''m1'' [0x3F800000, 0x40400000]) \<notin> col_id ` set (db (example_store []))
           \<and> engine_ok (ExecContext 0) = None"
    by (simp add: example_store_def engine_ok_def)
  from C2_add_any_length [of "example_memory ''m1'' [0x3F800000, 0x40400000]" "example_store []"
      engine_ok LittleEndian 5
      "(insert_args LittleEndian (example_memory ''m1'' []))\<lparr>col_embedding := [0, 0, 128, 63, 7]\<rparr>"]
    C2_add_any_length [of "example_memory ''m1'' [0x3F800000, 0x40400000]" "example_store []"
      engine_ok LittleEndian 5
      "(insert_args LittleEndian (example_memory ''m1'' []))\<lparr>col_embedding := [0, 0, 128, 63]\<rparr>"]
    h
  show ?thesis
    by (auto simp add: example_store_def Store_Add_def exec_insert_def insert_row_def Let_def
        example_memory_def)
qed

subsection \<open>Store: sorting and search\<close>



























subsection \<open>Service defaults\<close>



subsection \<open>Chunk line ranges\<close>




lemma line_range_ok_mono: "line_range_ok n c \<Longrightarrow> n \<le> m \<Longrightarrow> line_range_ok m c"
  by (simp add: line_range_ok_def)









lemma length_Split_LF: "length (Split_LF s) = Suc (length (filter (\<lambda>c. c = LF) s))"
  by (induction s) (auto split: list.splits)







text \<open>
  With a negative \<^verbatim>\<open>opts.MaxSize\<close> the Go splitter emits, after a function has ended,
  a chunk from the empty buffer whose start line is beyond its end line.
\<close>

lemma func_line:
  "TrimSpace ''func f() {}'' = ''func f() {}''"
  "Fields ''func f() {}'' = [''func'', ''f()'', ''{}'']"
  "cut_at (CHR ''('') ''f()'' = ''f''"
  "scanLines (''func f() {}'' @ [LF]) = [''func f() {}'']"
  by (simp_all add: TrimSpace_def Fields_def cut_at_def Index_def ascii_space_def scanLines_def
      LF_def Let_def)

lemma chunkGo_negative_MaxSize:
  "chunkGo (''func f() {}'' @ [LF]) (example_go_options (-1))
     = [\<lparr>ck_Content = ''func f() {}'', StartLine = 1, EndLine = 1, ck_Type = ''function'',
          Name = ''f''\<rparr>,
        \<lparr>ck_Content = '''', StartLine = 2, EndLine = 1, ck_Type = ''text'', Name = ''''\<rparr>]"
proof -
  have t: "TrimSpace (''func f() {}'' @ [LF]) = ''func f() {}''" "TrimSpace '''' = ''''"
    by (simp_all add: TrimSpace_def ascii_space_def LF_def)
  show ?thesis
    unfolding chunkGo_def func_line
    by (simp add: go_step_def go_func_start_def go_func_end_def go_max_size_def
      flush_def emit_def scan_init_def HasPrefix_def Count_def Contains_def func_line
      example_go_options_def Let_def) (simp add: t [simplified])
qed

end
